theory Spec2Isabelle
  imports Main "HOL-Library.Sublist"
begin

section \<open>Python values\<close>

text \<open>
  The three scripts work on strings, lists, tuples and dictionaries. A string is a
  \<^typ>\<open>string\<close>. A dictionary keeps its keys in insertion order, and the scripts iterate
  over \<open>items()\<close> and take \<open>list(keys())[0]\<close>, so a dictionary is an association list in
  insertion order. Assigning to a key that is already present replaces the value and
  leaves the key where it is; a new key goes to the end.
\<close>

type_synonym ('k, 'v) dict = "('k \<times> 'v) list"

fun dict_set :: "'k \<Rightarrow> 'v \<Rightarrow> ('k, 'v) dict \<Rightarrow> ('k, 'v) dict" where
  "dict_set k v [] = [(k, v)]"
| "dict_set k v ((k', v') # d) =
     (if k' = k then (k', v) # d else (k', v') # dict_set k v d)"

definition dict_keys :: "('k, 'v) dict \<Rightarrow> 'k list" where
  "dict_keys d = map fst d"

definition dict_get :: "('k, 'v) dict \<Rightarrow> 'k \<Rightarrow> 'v option" where
  "dict_get d k = map_of d k"

text \<open>\<open>sep.join(xs)\<close>.\<close>

fun join :: "string \<Rightarrow> string list \<Rightarrow> string" where
  "join sep [] = []"
| "join sep [x] = x"
| "join sep (x # y # ys) = x @ sep @ join sep (y # ys)"

text \<open>The exceptions that the modelled code paths can raise.\<close>

datatype error =
    FileNotFoundError string
  | IndexError
  | CatalogException string
  | IOException string

definition squote :: char where
  "squote = CHR 0x27"

definition dquote :: char where
  "dquote = CHR 0x22"

definition newline :: char where
  "newline = CHR 0x0A"

section \<open>The world outside the process\<close>

text \<open>
  A column is its name and its declared type, a table is its columns in ordinal order, a
  database is its tables by name. A path of the file system holds a CSV file (of which
  only the columns that \<open>read_csv_auto\<close> detects matter here), a database file, a
  directory, or something else. Paths are in normal form: two strings name the same
  entry only when they are equal. The empty string is the current directory
  (\<open>Path('')\<close> is \<open>Path('.')\<close>): it exists in every world, and no world holds a file
  under it. In-memory databases live in the process, one per connection. The trace
  \<open>events\<close> records every connection attempt and every statement handed to a
  connection, in order; \<open>log\<close> is what loguru received.
\<close>

type_synonym column = "string \<times> string"

type_synonym database = "string \<rightharpoonup> column list"

datatype node = CsvFile "column list" | DbFile database | Directory | OtherFile

datatype conn = FileConn string | MemConn nat

datatype stmt =
    CreateTableAsReadCsv string string
  | PragmaTableInfo string

datatype event = Connect string | Execute conn stmt

datatype level = INFO | WARNING | ERROR

record world =
  fs :: "string \<rightharpoonup> node"
  mem :: "database list"
  events :: "event list"
  log :: "(level \<times> string) list"

text \<open>The SQL text that the scripts build for the two statements.\<close>

fun sql_text :: "stmt \<Rightarrow> string" where
  "sql_text (CreateTableAsReadCsv table_name csv_path) =
     ''CREATE TABLE '' @ table_name @ '' AS SELECT * FROM read_csv_auto('' @ [squote]
       @ csv_path @ [squote] @ '')''"
| "sql_text (PragmaTableInfo table) = ''PRAGMA table_info('' @ table @ '')''"

definition path_exists :: "world \<Rightarrow> string \<Rightarrow> bool" where
  "path_exists w p = (p = [] \<or> fs w p \<noteq> None)"

definition logger :: "level \<Rightarrow> string \<Rightarrow> world \<Rightarrow> world" where
  "logger l msg w = w\<lparr>log := log w @ [(l, msg)]\<rparr>"

text \<open>
  \<open>os.path.dirname\<close>: the path up to its last slash, without trailing slashes unless
  it is the root; empty when the path has no slash.
\<close>

definition dirname :: "string \<Rightarrow> string" where
  "dirname p =
     (let r = dropWhile (\<lambda>c. c \<noteq> CHR ''/'') (rev p) in
      if list_all (\<lambda>c. c = CHR ''/'') r then rev r
      else rev (dropWhile (\<lambda>c. c = CHR ''/'') r))"

text \<open>
  The directory in which a new file would be created is there: the current directory
  for a path with no slash, a directory of the file system otherwise.
\<close>

definition parent_exists :: "world \<Rightarrow> string \<Rightarrow> bool" where
  "parent_exists w p = (dirname p = [] \<or> fs w (dirname p) = Some Directory)"

text \<open>
  \<open>duckdb.connect(database=p, read_only=False)\<close>: \<open>:memory:\<close> gives a fresh empty
  in-memory database, and so does the empty string; an existing database file is
  opened as it is; any other existing entry is refused; a path with no entry gets a
  new empty database file when its directory is there, and is refused when not.
\<close>

definition connect :: "string \<Rightarrow> world \<Rightarrow> (error + conn) \<times> world" where
  "connect database w =
     (let w1 = w\<lparr>events := events w @ [Connect database]\<rparr> in
      if database = '':memory:'' then
        (Inr (MemConn (length (mem w))), w1\<lparr>mem := mem w @ [Map.empty]\<rparr>)
      else
        (case fs w database of
           Some (DbFile db) \<Rightarrow> (Inr (FileConn database), w1)
         | Some _ \<Rightarrow> (Inl (IOException database), w1)
         | None \<Rightarrow>
             if database = [] then
               (Inr (MemConn (length (mem w))), w1\<lparr>mem := mem w @ [Map.empty]\<rparr>)
             else if parent_exists w database then
               (Inr (FileConn database), w1\<lparr>fs := (fs w)(database \<mapsto> DbFile Map.empty)\<rparr>)
             else (Inl (IOException database), w1)))"

text \<open>The database behind a connection, and its replacement after a statement.\<close>

fun db_of :: "world \<Rightarrow> conn \<Rightarrow> database option" where
  "db_of w (FileConn p) = (case fs w p of Some (DbFile db) \<Rightarrow> Some db | _ \<Rightarrow> None)"
| "db_of w (MemConn n) = (if n < length (mem w) then Some (mem w ! n) else None)"

fun put_db :: "conn \<Rightarrow> database \<Rightarrow> world \<Rightarrow> world" where
  "put_db (FileConn p) db w = w\<lparr>fs := (fs w)(p \<mapsto> DbFile db)\<rparr>"
| "put_db (MemConn n) db w = w\<lparr>mem := (mem w)[n := db]\<rparr>"

text \<open>
  \<open>con.execute("PRAGMA table_info(t)").fetchall()\<close>: the rows of the table's columns in
  ordinal order, of which the scripts read the name (\<open>col[1]\<close>) and the type (\<open>col[2]\<close>);
  the engine raises when there is no such table.
\<close>

definition execute_table_info :: "conn \<Rightarrow> string \<Rightarrow> world \<Rightarrow> (error + column list) \<times> world" where
  "execute_table_info con table w =
     (let w1 = w\<lparr>events := events w @ [Execute con (PragmaTableInfo table)]\<rparr> in
      case db_of w con of
        None \<Rightarrow> (Inl (IOException ''connection''), w1)
      | Some db \<Rightarrow>
          (case db table of
             None \<Rightarrow> (Inl (CatalogException table), w1)
           | Some columns \<Rightarrow> (Inr columns, w1)))"

text \<open>
  \<open>con.execute("CREATE TABLE t AS SELECT * FROM read_csv_auto('p')")\<close>: the select is
  bound first, which reads the file; then the table is created, which the engine
  refuses when a table of that name is there (the statement has no \<open>OR REPLACE\<close>).
\<close>

definition execute_create_table :: "conn \<Rightarrow> string \<Rightarrow> string \<Rightarrow> world \<Rightarrow> (error + unit) \<times> world" where
  "execute_create_table con table_name csv_path w =
     (let w1 = w\<lparr>events := events w @ [Execute con (CreateTableAsReadCsv table_name csv_path)]\<rparr> in
      case db_of w con of
        None \<Rightarrow> (Inl (IOException ''connection''), w1)
      | Some db \<Rightarrow>
          (case fs w csv_path of
             Some (CsvFile columns) \<Rightarrow>
               (case db table_name of
                  Some _ \<Rightarrow> (Inl (CatalogException table_name), w1)
                | None \<Rightarrow> (Inr (), put_db con (db(table_name \<mapsto> columns)) w1))
           | _ \<Rightarrow> (Inl (IOException csv_path), w1)))"

section \<open>infer\_schemas.py\<close>

text \<open>
  \<open>{col[1]: col[2] for col in columns}\<close>: the dictionary comprehension assigns the
  rows from left to right.
\<close>

definition columns_dict :: "column list \<Rightarrow> (string, string) dict" where
  "columns_dict columns = fold (\<lambda>col d. dict_set (fst col) (snd col) d) columns []"

text \<open>The loop \<open>for table in tables\<close>, carrying \<open>schemas\<close>.\<close>

type_synonym schemas = "(string, (string, string) dict) dict"

fun infer_loop :: "conn \<Rightarrow> string list \<Rightarrow> schemas \<Rightarrow> world \<Rightarrow> (error + schemas) \<times> world" where
  "infer_loop con [] schemas w = (Inr schemas, w)"
| "infer_loop con (table # tables) schemas w =
     (case execute_table_info con table w of
        (Inl e, w') \<Rightarrow> (Inl e, w')
      | (Inr columns, w') \<Rightarrow>
          infer_loop con tables (dict_set table (columns_dict columns) schemas) w')"

definition infer_schemas_and_generate_puppini_bridge_sql ::
  "string list \<Rightarrow> string \<Rightarrow> world \<Rightarrow> (error + conn \<times> schemas) \<times> world" where
  "infer_schemas_and_generate_puppini_bridge_sql tables database_path w =
     (if \<not> path_exists w database_path then
        (Inl (FileNotFoundError
           (''Database file '' @ [squote] @ database_path @ [squote] @ '' does not exist!'')), w)
      else
        (let w1 = logger INFO
                    (''Database file '' @ [squote] @ database_path @ [squote] @ '' exists.'') w;
             w2 = logger INFO
                    (''Connecting to DuckDB database at '' @ [squote] @ database_path
                       @ [squote] @ ''...'') w1
         in case connect database_path w2 of
              (Inl e, w3) \<Rightarrow> (Inl e, w3)
            | (Inr con, w3) \<Rightarrow>
                (case infer_loop con tables [] w3 of
                   (Inl e, w4) \<Rightarrow> (Inl e, w4)
                 | (Inr schemas, w4) \<Rightarrow> (Inr (con, schemas), w4))))"

text \<open>\<open>list(columns.keys())[0]\<close> raises \<open>IndexError\<close> on a dictionary with no key.\<close>

definition first_key :: "('k, 'v) dict \<Rightarrow> error + 'k" where
  "first_key columns = (case dict_keys columns of [] \<Rightarrow> Inl IndexError | k # _ \<Rightarrow> Inr k)"

definition select_query :: "string \<Rightarrow> string \<Rightarrow> string" where
  "select_query primary_key table_name =
     ''SELECT CAST('' @ primary_key @ '' AS VARCHAR) AS _KEY_'' @ table_name @ '', ''
       @ [squote] @ table_name @ [squote] @ '' AS Stage FROM '' @ table_name"

text \<open>The loop \<open>for table_name, columns in schemas.items()\<close>, carrying \<open>union_queries\<close>.\<close>

fun union_loop :: "schemas \<Rightarrow> string list \<Rightarrow> world \<Rightarrow> (error + string list) \<times> world" where
  "union_loop [] union_queries w = (Inr union_queries, w)"
| "union_loop ((table_name, columns) # rest) union_queries w =
     (let w1 = logger INFO
                 (''Generating SELECT query for table '' @ [squote] @ table_name
                    @ [squote] @ ''...'') w
      in case first_key columns of
           Inl e \<Rightarrow> (Inl e, w1)
         | Inr primary_key \<Rightarrow>
             (let q = select_query primary_key table_name;
                  w2 = logger INFO (''Generated SELECT query: '' @ q) w1
              in union_loop rest (union_queries @ [q]) w2))"

definition generate_puppini_bridge_sql :: "schemas \<Rightarrow> world \<Rightarrow> (error + string) \<times> world" where
  "generate_puppini_bridge_sql schemas w =
     (case union_loop schemas [] w of
        (Inl e, w') \<Rightarrow> (Inl e, w')
      | (Inr union_queries, w') \<Rightarrow>
          (let union_all_query = join '' UNION ALL '' union_queries;
               w1 = logger INFO (''Generated UNION ALL query: '' @ union_all_query) w';
               create_table_query =
                 ''CREATE OR REPLACE TABLE puppini_bridge AS '' @ union_all_query;
               w2 = logger INFO (''Generated Puppini Bridge SQL: '' @ create_table_query) w1
           in (Inr create_table_query, w2)))"

section \<open>load\_data\_duckdb.py\<close>

text \<open>
  The loop \<open>for table_name, csv_path in csv_files.items()\<close>. An entry whose file is
  missing is logged and passed over with \<open>continue\<close>; an exception of \<open>con.execute\<close>
  ends the loop and the call.
\<close>

fun load_loop :: "conn \<Rightarrow> (string, string) dict \<Rightarrow> world \<Rightarrow> (error + unit) \<times> world" where
  "load_loop con [] w = (Inr (), w)"
| "load_loop con ((table_name, csv_path) # rest) w =
     (if \<not> path_exists w csv_path then
        load_loop con rest
          (logger ERROR
             (''CSV file '' @ [squote] @ csv_path @ [squote] @ '' does not exist. Skipping table ''
                @ [squote] @ table_name @ [squote] @ ''.'') w)
      else
        (let w1 = logger INFO
                    (''Loading CSV file '' @ [squote] @ csv_path @ [squote]
                       @ '' into DuckDB table '' @ [squote] @ table_name @ [squote] @ ''...'') w
         in case execute_create_table con table_name csv_path w1 of
              (Inl e, w2) \<Rightarrow> (Inl e, w2)
            | (Inr u, w2) \<Rightarrow>
                load_loop con rest
                  (logger INFO
                     (''Table '' @ [squote] @ table_name @ [squote] @ '' created successfully.'')
                     w2)))"

definition load_csv_to_duckdb ::
  "(string, string) dict \<Rightarrow> bool \<Rightarrow> string \<Rightarrow> world \<Rightarrow> (error + conn) \<times> world" where
  "load_csv_to_duckdb csv_files force database_path w =
     (let w1 = logger INFO
                 (''Connecting to DuckDB database at '' @ [squote] @ database_path
                    @ [squote] @ ''...'') w
      in if path_exists w1 database_path \<and> \<not> force then
           connect database_path
             (logger WARNING
                (''DuckDB database '' @ [squote] @ database_path @ [squote]
                   @ '' already exists. Connecting to existing. Use ''
                   @ [squote] @ ''force=True'' @ [squote] @ '' to overwrite.'') w1)
         else
           (case connect database_path w1 of
              (Inl e, w2) \<Rightarrow> (Inl e, w2)
            | (Inr con, w2) \<Rightarrow>
                (case load_loop con csv_files w2 of
                   (Inl e, w3) \<Rightarrow> (Inl e, w3)
                 | (Inr u, w3) \<Rightarrow> (Inr con, w3))))"

section \<open>erd.py\<close>

text \<open>
  The diagram is built from the rows of the two catalogue queries:
  \<open>table_columns\<close>, rows \<open>(table, column, data_type)\<close>, and \<open>foreign_keys\<close>, rows
  \<open>(from_table, from_column, to_table, to_column)\<close>. The engine answers the queries;
  the rows are the arguments here. The calls of the logger between the steps do not
  touch the diagram and are not part of the model.

  \<open>str.lower()\<close> follows the case tables of Unicode, which are not part of the
  scripts: it is the parameter \<open>lower\<close> of every definition that needs it, a function
  from strings to strings about which nothing is assumed.
\<close>

type_synonym table_column = "string \<times> string \<times> string"

type_synonym foreign_key = "string \<times> string \<times> string \<times> string"

definition column_entry :: "(string \<Rightarrow> string) \<Rightarrow> string \<Rightarrow> string \<Rightarrow> string" where
  "column_entry lower data_type column = lower data_type @ '' '' @ column"

text \<open>
  One pass of the loop \<open>for table, column, data_type in table_columns\<close>. After the
  \<open>if\<close> the key is present, so the lookup of \<open>tables[table]\<close> finds a list; \<open>append\<close>
  extends that list in place.
\<close>

fun add_column ::
  "(string \<Rightarrow> string) \<Rightarrow> table_column \<Rightarrow> (string, string list) dict
     \<Rightarrow> (string, string list) dict" where
  "add_column lower (table, column, data_type) tables =
     (let tables1 = (if table \<notin> set (dict_keys tables) then dict_set table [] tables
                     else tables)
      in case dict_get tables1 table of
           Some columns \<Rightarrow>
             dict_set table (columns @ [column_entry lower data_type column]) tables1
         | None \<Rightarrow> tables1)"

definition collect_tables ::
  "(string \<Rightarrow> string) \<Rightarrow> table_column list \<Rightarrow> (string, string list) dict" where
  "collect_tables lower table_columns = fold (add_column lower) table_columns []"

fun table_block :: "string \<times> string list \<Rightarrow> string list" where
  "table_block (table, columns) =
     [''  '' @ table @ '' {''] @ map (\<lambda>col. ''    '' @ col) columns @ [''  }'']"

fun relationship_line :: "foreign_key \<Rightarrow> string" where
  "relationship_line (from_table, from_column, to_table, to_column) =
     ''  '' @ from_table @ '' }o--o{ '' @ to_table @ '' : '' @ [dquote] @ from_column
       @ '' -> '' @ to_column @ [dquote]"

text \<open>The list \<open>mermaid_diagram\<close> when the last loop has ended, and the returned string.\<close>

definition mermaid_diagram ::
  "(string \<Rightarrow> string) \<Rightarrow> table_column list \<Rightarrow> foreign_key list \<Rightarrow> string list" where
  "mermaid_diagram lower table_columns foreign_keys =
     [''erDiagram'']
       @ concat (map table_block (collect_tables lower table_columns))
       @ map relationship_line foreign_keys"

definition generate_mermaid_erd ::
  "(string \<Rightarrow> string) \<Rightarrow> table_column list \<Rightarrow> foreign_key list \<Rightarrow> string" where
  "generate_mermaid_erd lower table_columns foreign_keys =
     join [newline] (mermaid_diagram lower table_columns foreign_keys)"

text \<open>
  On a string of ASCII characters \<open>str.lower()\<close> sends the letters \<open>A\<close> to \<open>Z\<close> to
  \<open>a\<close> to \<open>z\<close> and keeps every other character. This function is used for the
  concrete runs only, whose type names are ASCII.
\<close>

definition ascii_lower_char :: "char \<Rightarrow> char" where
  "ascii_lower_char c =
     (let n = (of_char c :: nat) in if 65 \<le> n \<and> n \<le> 90 then char_of (n + 32) else c)"

definition ascii_lower :: "string \<Rightarrow> string" where
  "ascii_lower s = map ascii_lower_char s"

section \<open>The diagram as the specification words it\<close>

text \<open>
  The specification describes the diagram without the dictionary: the tables in the
  order in which the column listing first names them, and under each table its rows of
  the listing in their order.
\<close>

fun first_seen :: "'a list \<Rightarrow> 'a list" where
  "first_seen [] = []"
| "first_seen (x # xs) = x # filter (\<lambda>y. y \<noteq> x) (first_seen xs)"

definition columns_of ::
  "(string \<Rightarrow> string) \<Rightarrow> table_column list \<Rightarrow> string \<Rightarrow> string list" where
  "columns_of lower table_columns table =
     map (\<lambda>(t, column, data_type). lower data_type @ '' '' @ column)
       (filter (\<lambda>(t, column, data_type). t = table) table_columns)"

definition spec_block ::
  "(string \<Rightarrow> string) \<Rightarrow> table_column list \<Rightarrow> string \<Rightarrow> string list" where
  "spec_block lower table_columns table =
     (''  '' @ table @ '' {'')
       # map (\<lambda>col. ''    '' @ col) (columns_of lower table_columns table) @ [''  }'']"

definition spec_diagram ::
  "(string \<Rightarrow> string) \<Rightarrow> table_column list \<Rightarrow> foreign_key list \<Rightarrow> string list" where
  "spec_diagram lower table_columns foreign_keys =
     ''erDiagram''
       # concat (map (spec_block lower table_columns) (first_seen (map fst table_columns)))
       @ map (\<lambda>(from_table, from_column, to_table, to_column).
                ''  '' @ from_table @ '' }o--o{ '' @ to_table @ '' : '' @ [dquote]
                  @ from_column @ '' -> '' @ to_column @ [dquote]) foreign_keys"

section \<open>Worlds for the concrete runs\<close>

definition empty_world :: world where
  "empty_world = \<lparr>fs = Map.empty, mem = [], events = [], log = []\<rparr>"

text \<open>
  A database file with the two tables of the specification's scenario, and one with a
  single table.
\<close>

definition sales_world :: world where
  "sales_world =
     \<lparr>fs = [''data'' \<mapsto> Directory, ''data/sales.duckdb'' \<mapsto> DbFile
              [''fact_sales'' \<mapsto> [(''sale_id'', ''BIGINT''), (''product_id'', ''BIGINT''),
                                  (''amount'', ''DOUBLE'')],
               ''dim_product'' \<mapsto> [(''product_id'', ''BIGINT''), (''name'', ''VARCHAR'')]]],
      mem = [], events = [], log = []\<rparr>"

definition dup_world :: world where
  "dup_world = \<lparr>fs = [''data'' \<mapsto> Directory,
                       ''data/sales.duckdb'' \<mapsto> DbFile [''a'' \<mapsto> [(''id'', ''INTEGER'')]]],
                 mem = [], events = [], log = []\<rparr>"

text \<open>A file system with a directory, one CSV file in it, and no database.\<close>

definition csv_world :: world where
  "csv_world = \<lparr>fs = [''data'' \<mapsto> Directory,
                       ''data/t1.csv'' \<mapsto> CsvFile [(''id'', ''BIGINT''), (''name'', ''VARCHAR'')]],
                 mem = [], events = [], log = []\<rparr>"

section \<open>Worlds that differ in the log only\<close>

text \<open>
  Two worlds are the same but for the log when they have the same file system, the
  same in-memory databases and the same trace of connections and statements.
\<close>

definition same_but_log :: "world \<Rightarrow> world \<Rightarrow> bool" where
  "same_but_log w w' = (fs w = fs w' \<and> mem w = mem w' \<and> events w = events w')"

section \<open>Bridge SQL generation\<close>

text \<open>
  What the loop returns, whatever it was given to start with: the branches of all
  tables appended in the order of the schema map, or \<open>IndexError\<close> as soon as one
  table has no column.
\<close>

lemma union_loop_result:
  "fst (union_loop schemas uq w) =
     (if list_all (\<lambda>(t, cols). cols \<noteq> []) schemas
      then Inr (uq @ map (\<lambda>(t, cols). select_query (fst (hd cols)) t) schemas)
      else Inl IndexError)"
proof (induction schemas arbitrary: uq w)
  case Nil
  show ?case by simp
next
  case (Cons entry rest)
  obtain t cols where entry: "entry = (t, cols)" by (cases entry)
  show ?case
  proof (cases cols)
    case Nil
    then show ?thesis by (simp add: entry first_key_def dict_keys_def)
  next
    case (Cons c cs)
    then show ?thesis
      using Cons.IH by (simp add: entry first_key_def dict_keys_def Let_def)
  qed
qed

lemma generate_result:
  "fst (generate_puppini_bridge_sql schemas w) =
     (if list_all (\<lambda>(t, cols). cols \<noteq> []) schemas
      then Inr (''CREATE OR REPLACE TABLE puppini_bridge AS ''
                 @ join '' UNION ALL '' (map (\<lambda>(t, cols). select_query (fst (hd cols)) t) schemas))
      else Inl IndexError)"
proof -
  obtain r w' where r: "union_loop schemas [] w = (r, w')" by (cases "union_loop schemas [] w")
  have "r = fst (union_loop schemas [] w)" by (simp add: r)
  then have "r = (if list_all (\<lambda>(t, cols). cols \<noteq> []) schemas
      then Inr (map (\<lambda>(t, cols). select_query (fst (hd cols)) t) schemas)
      else Inl IndexError)" by (simp add: union_loop_result)
  then show ?thesis
    by (simp add: generate_puppini_bridge_sql_def r Let_def)
qed

lemma sublist_prepend:
  assumes "sublist x y"
  shows "sublist x (p @ y)"
proof -
  from assms obtain ps ss where "y = ps @ x @ ss" by (auto simp: sublist_def)
  then have "p @ y = (p @ ps) @ x @ ss" by simp
  then show ?thesis unfolding sublist_def by blast
qed

lemma sublist_join:
  "x \<in> set xs \<Longrightarrow> sublist x (join sep xs)"
proof (induction sep xs rule: join.induct)
  case (1 sep)
  then show ?case by simp
next
  case (2 sep y)
  then show ?case by simp
next
  case (3 sep y z zs)
  show ?case
  proof (cases "x = y")
    case True
    then show ?thesis by simp
  next
    case False
    then have "sublist x (join sep (z # zs))" using 3 by simp
    then have "sublist x ((y @ sep) @ join sep (z # zs))" by (rule sublist_prepend)
    then show ?thesis by simp
  qed
qed

text \<open>
  Claim C1, as the code has it. When every table of the schema map has at least one
  column, \<open>generate_puppini_bridge_sql\<close> returns
  \<open>CREATE OR REPLACE TABLE puppini_bridge AS\<close> followed by the per-table selections
  joined with \<open>UNION ALL\<close>, in the order of the schema map; the selection of a table is
  \<open>SELECT CAST(<first column> AS VARCHAR) AS _KEY_<table>, '<table>' AS Stage FROM <table>\<close>,
  and the selection of every table of the map occurs in the returned text.
\<close>

theorem bridge_sql_shape:
  assumes "list_all (\<lambda>(t, cols). cols \<noteq> []) schemas"
  shows "\<exists>sql. fst (generate_puppini_bridge_sql schemas w) = Inr sql
           \<and> sql = ''CREATE OR REPLACE TABLE puppini_bridge AS ''
                 @ join '' UNION ALL ''
                     (map (\<lambda>(t, cols). ''SELECT CAST('' @ fst (hd cols) @ '' AS VARCHAR) AS _KEY_''
                              @ t @ '', '' @ [squote] @ t @ [squote] @ '' AS Stage FROM '' @ t) schemas)
           \<and> (\<forall>(t, cols) \<in> set schemas.
                sublist (''SELECT CAST('' @ fst (hd cols) @ '' AS VARCHAR) AS _KEY_''
                              @ t @ '', '' @ [squote] @ t @ [squote] @ '' AS Stage FROM '' @ t) sql)"
proof -
  let ?branch = "\<lambda>(t, cols). ''SELECT CAST('' @ fst (hd cols) @ '' AS VARCHAR) AS _KEY_''
                              @ t @ '', '' @ [squote] @ t @ [squote] @ '' AS Stage FROM '' @ t"
  let ?u = "join '' UNION ALL '' (map ?branch schemas)"
  have eq: "(\<lambda>(t, cols). select_query (fst (hd cols)) t) = ?branch"
    by (simp add: select_query_def fun_eq_iff)
  have res: "fst (generate_puppini_bridge_sql schemas w)
               = Inr (''CREATE OR REPLACE TABLE puppini_bridge AS '' @ ?u)"
    using assms by (simp only: generate_result eq if_True)
  have "\<forall>e \<in> set schemas. sublist (?branch e) (''CREATE OR REPLACE TABLE puppini_bridge AS '' @ ?u)"
  proof
    fix e assume "e \<in> set schemas"
    then have "?branch e \<in> set (map ?branch schemas)" by (simp only: set_map imageI)
    then have "sublist (?branch e) ?u" by (rule sublist_join)
    then show "sublist (?branch e) (''CREATE OR REPLACE TABLE puppini_bridge AS '' @ ?u)"
      by (rule sublist_prepend)
  qed
  then have "\<forall>(t, cols) \<in> set schemas.
               sublist (?branch (t, cols)) (''CREATE OR REPLACE TABLE puppini_bridge AS '' @ ?u)"
    by auto
  with res show ?thesis by simp
qed

text \<open>
  The scenario of the specification: \<open>dim_product\<close> with first column \<open>product_id\<close>.
\<close>

theorem bridge_sql_shape_witness:
  "list_all (\<lambda>(t, cols). cols \<noteq> [])
     [(''dim_product'', [(''product_id'', ''INTEGER''), (''name'', ''VARCHAR'')])]
   \<and> fst (generate_puppini_bridge_sql
            [(''dim_product'', [(''product_id'', ''INTEGER''), (''name'', ''VARCHAR'')])] empty_world)
       = Inr ''CREATE OR REPLACE TABLE puppini_bridge AS SELECT CAST(product_id AS VARCHAR) AS _KEY_dim_product, 'dim_product' AS Stage FROM dim_product''"
  using bridge_sql_shape
    [of "[(''dim_product'', [(''product_id'', ''INTEGER''), (''name'', ''VARCHAR'')])]" empty_world]
  by (simp add: squote_def)

text \<open>
  Claim C1 as written speaks of every schema map. On the map with the one table \<open>t\<close>
  and no column, no SQL is generated: \<open>list(columns.keys())[0]\<close> raises.
\<close>

theorem bridge_sql_empty_columns_counterexample:
  "fst (generate_puppini_bridge_sql [(''t'', [])] empty_world) = Inl IndexError"
  by (simp add: generate_puppini_bridge_sql_def first_key_def dict_keys_def)

text \<open>
  Claim C9. The SQL text is a function of the schema map alone: two runs on the same
  map return the same result, whatever the state of the world (file system,
  databases, log) at each run.
\<close>

theorem bridge_sql_deterministic:
  "fst (generate_puppini_bridge_sql schemas w) = fst (generate_puppini_bridge_sql schemas w')"
  by (simp only: generate_result)

theorem bridge_sql_deterministic_witness:
  "fst (generate_puppini_bridge_sql
          [(''fact_sales'', [(''sale_id'', ''BIGINT''), (''amount'', ''DOUBLE'')]),
           (''dim_product'', [(''product_id'', ''BIGINT'')])] empty_world)
   = fst (generate_puppini_bridge_sql
          [(''fact_sales'', [(''sale_id'', ''BIGINT''), (''amount'', ''DOUBLE'')]),
           (''dim_product'', [(''product_id'', ''BIGINT'')])] sales_world)"
  using bridge_sql_deterministic
    [of "[(''fact_sales'', [(''sale_id'', ''BIGINT''), (''amount'', ''DOUBLE'')]),
          (''dim_product'', [(''product_id'', ''BIGINT'')])]" empty_world sales_world]
  by simp

text \<open>
  Claim C10. \<open>generate_puppini_bridge_sql\<close> raises \<open>IndexError\<close> exactly when some
  table of the schema map has an empty column mapping, and returns SQL exactly when
  every table has at least one column.
\<close>

theorem empty_columns_index_error:
  "(fst (generate_puppini_bridge_sql schemas w) = Inl IndexError
      \<longleftrightarrow> (\<exists>(t, cols) \<in> set schemas. cols = []))
   \<and> ((\<exists>sql. fst (generate_puppini_bridge_sql schemas w) = Inr sql)
      \<longleftrightarrow> (\<forall>(t, cols) \<in> set schemas. cols \<noteq> []))"
  by (auto simp: generate_result list_all_iff)

theorem empty_columns_index_error_witness:
  "fst (generate_puppini_bridge_sql
          [(''dim_product'', [(''product_id'', ''INTEGER'')]), (''dim_store'', [])] empty_world)
     = Inl IndexError"
  using empty_columns_index_error
    [of "[(''dim_product'', [(''product_id'', ''INTEGER'')]), (''dim_store'', [])]" empty_world]
  by simp

section \<open>Schema inference\<close>

text \<open>
  Claim C3. When nothing exists at the database path,
  \<open>infer_schemas_and_generate_puppini_bridge_sql\<close> raises \<open>FileNotFoundError\<close> and
  the world is the one it was called in: no connection attempt and no statement in
  the trace, no file or database touched, nothing logged.
\<close>

theorem missing_database_raises_first:
  assumes "\<not> path_exists w database_path"
  shows "infer_schemas_and_generate_puppini_bridge_sql tables database_path w
           = (Inl (FileNotFoundError
                (''Database file '' @ [squote] @ database_path @ [squote] @ '' does not exist!'')), w)"
  using assms by (simp add: infer_schemas_and_generate_puppini_bridge_sql_def)

theorem missing_database_raises_first_witness:
  "\<not> path_exists empty_world ''data/sales.duckdb''
   \<and> infer_schemas_and_generate_puppini_bridge_sql [''fact_sales'', ''dim_product'']
        ''data/sales.duckdb'' empty_world
       = (Inl (FileNotFoundError ''Database file 'data/sales.duckdb' does not exist!''),
          empty_world)"
  using missing_database_raises_first
    [of empty_world "''data/sales.duckdb''" "[''fact_sales'', ''dim_product'']"]
  by (simp add: path_exists_def empty_world_def squote_def)

text \<open>
  The keys of a dictionary after an assignment, and the keys of \<open>schemas\<close> after the
  loop: the keys it had, then the new table names in the order of their first
  occurrence.
\<close>

lemma first_seen_set [simp]: "set (first_seen xs) = set xs"
  by (induction xs) auto

lemma first_seen_distinct [simp]: "distinct (first_seen xs)"
  by (induction xs) auto

lemma first_seen_id: "distinct xs \<Longrightarrow> first_seen xs = xs"
proof (induction xs)
  case Nil
  then show ?case by simp
next
  case (Cons x xs)
  then have "filter (\<lambda>y. y \<noteq> x) xs = xs" by (auto intro: filter_True)
  with Cons show ?case by simp
qed

lemma dict_set_keys:
  "map fst (dict_set k v d) = (if k \<in> set (map fst d) then map fst d else map fst d @ [k])"
proof (induction d)
  case Nil
  show ?case by simp
next
  case (Cons e d)
  obtain k' v' where e: "e = (k', v')" by (cases e)
  show ?case
  proof (cases "k' = k")
    case True
    then show ?thesis by (simp add: e)
  next
    case False
    then show ?thesis using Cons.IH by (simp add: e)
  qed
qed

lemma infer_loop_keys:
  "infer_loop con tables schemas w = (Inr s', w') \<Longrightarrow>
     map fst s' = map fst schemas @ filter (\<lambda>t. t \<notin> set (map fst schemas)) (first_seen tables)"
proof (induction tables arbitrary: schemas w)
  case Nil
  then show ?case by simp
next
  case (Cons t ts)
  obtain r w1 where ex: "execute_table_info con t w = (r, w1)"
    by (cases "execute_table_info con t w")
  show ?case
  proof (cases r)
    case (Inl e)
    with Cons.prems ex show ?thesis by simp
  next
    case (Inr columns)
    let ?s1 = "dict_set t (columns_dict columns) schemas"
    from Cons.prems ex Inr have "infer_loop con ts ?s1 w1 = (Inr s', w')" by simp
    then have ih: "map fst s' = map fst ?s1 @ filter (\<lambda>u. u \<notin> set (map fst ?s1)) (first_seen ts)"
      by (rule Cons.IH)
    show ?thesis
    proof (cases "t \<in> set (map fst schemas)")
      case True
      then have k: "map fst ?s1 = map fst schemas" by (simp add: dict_set_keys)
      have "filter (\<lambda>u. u \<notin> set (map fst schemas)) (filter (\<lambda>y. y \<noteq> t) (first_seen ts))
              = filter (\<lambda>u. u \<notin> set (map fst schemas)) (first_seen ts)"
        using True by (auto simp: filter_filter intro!: filter_cong)
      with ih k True show ?thesis by simp
    next
      case False
      then have k: "map fst ?s1 = map fst schemas @ [t]" by (simp add: dict_set_keys)
      have "filter (\<lambda>u. u \<notin> set (map fst schemas @ [t])) (first_seen ts)
              = filter (\<lambda>u. u \<notin> set (map fst schemas)) (filter (\<lambda>y. y \<noteq> t) (first_seen ts))"
        by (auto simp: filter_filter intro!: filter_cong)
      with ih k False show ?thesis by simp
    qed
  qed
qed

lemma infer_keys:
  assumes fst_res: "fst (infer_schemas_and_generate_puppini_bridge_sql tables database_path w)
             = Inr (con, schemas)"
  shows "map fst schemas = first_seen tables"
proof -
  obtain w' where assms: "infer_schemas_and_generate_puppini_bridge_sql tables database_path w
             = (Inr (con, schemas), w')"
    using fst_res by (cases "infer_schemas_and_generate_puppini_bridge_sql tables database_path w") simp
  from assms have ex: "path_exists w database_path"
    by (auto simp: infer_schemas_and_generate_puppini_bridge_sql_def split: if_splits)
  let ?w2 = "logger INFO
                    (''Connecting to DuckDB database at '' @ [squote] @ database_path
                       @ [squote] @ ''...'') (logger INFO
                    (''Database file '' @ [squote] @ database_path @ [squote] @ '' exists.'') w)"
  obtain r w3 where c: "connect database_path ?w2 = (r, w3)" by (cases "connect database_path ?w2")
  from assms ex c obtain con' where r: "r = Inr con'"
    by (cases r) (auto simp: infer_schemas_and_generate_puppini_bridge_sql_def Let_def)
  obtain r2 w4 where l: "infer_loop con' tables [] w3 = (r2, w4)"
    by (cases "infer_loop con' tables [] w3")
  from assms ex c r l have "r2 = Inr schemas"
    by (cases r2) (auto simp: infer_schemas_and_generate_puppini_bridge_sql_def Let_def)
  with l have "infer_loop con' tables [] w3 = (Inr schemas, w4)" by simp
  from infer_loop_keys[OF this] show ?thesis by simp
qed

text \<open>
  Claim C7, as the code has it. When schema inference returns, the keys of the schema
  map are the table names in the order of their first occurrence in the input list,
  which is the input list when no name is repeated; and when SQL is generated from
  that map, its \<open>UNION ALL\<close> branches are one selection per such name, in that order.
\<close>

theorem union_order_follows_first_occurrence:
  assumes "fst (infer_schemas_and_generate_puppini_bridge_sql tables database_path w)
             = Inr (con, schemas)"
  shows "map fst schemas = first_seen tables
         \<and> (distinct tables \<longrightarrow> map fst schemas = tables)
         \<and> (\<forall>sql. fst (generate_puppini_bridge_sql schemas w'') = Inr sql \<longrightarrow>
               (\<exists>keys. length keys = length (first_seen tables)
                  \<and> sql = ''CREATE OR REPLACE TABLE puppini_bridge AS ''
                       @ join '' UNION ALL '' (map2 select_query keys (first_seen tables))))"
proof -
  have k: "map fst schemas = first_seen tables" using assms by (rule infer_keys)
  have d: "distinct tables \<longrightarrow> map fst schemas = tables" using k by (simp add: first_seen_id)
  have "\<forall>sql. fst (generate_puppini_bridge_sql schemas w'') = Inr sql \<longrightarrow>
               (\<exists>keys. length keys = length (first_seen tables)
                  \<and> sql = ''CREATE OR REPLACE TABLE puppini_bridge AS ''
                       @ join '' UNION ALL '' (map2 select_query keys (first_seen tables)))"
  proof (intro allI impI)
    fix sql
    assume g: "fst (generate_puppini_bridge_sql schemas w'') = Inr sql"
    let ?keys = "map (\<lambda>(t, cols). fst (hd cols)) schemas"
    have m: "map (\<lambda>(t, cols). select_query (fst (hd cols)) t) schemas
           = map2 select_query ?keys (map fst schemas)"
      by (induction schemas) auto
    from g have "sql = ''CREATE OR REPLACE TABLE puppini_bridge AS ''
                 @ join '' UNION ALL '' (map (\<lambda>(t, cols). select_query (fst (hd cols)) t) schemas)"
      by (simp add: generate_result split: if_splits)
    with m k have "sql = ''CREATE OR REPLACE TABLE puppini_bridge AS ''
                       @ join '' UNION ALL '' (map2 select_query ?keys (first_seen tables))"
      by simp
    moreover have "length ?keys = length (first_seen tables)" using k by (metis length_map)
    ultimately show "\<exists>keys. length keys = length (first_seen tables)
                  \<and> sql = ''CREATE OR REPLACE TABLE puppini_bridge AS ''
                       @ join '' UNION ALL '' (map2 select_query keys (first_seen tables))"
      by blast
  qed
  with k d show ?thesis by blast
qed

theorem union_order_follows_first_occurrence_witness:
  "fst (infer_schemas_and_generate_puppini_bridge_sql [''fact_sales'', ''dim_product'']
          ''data/sales.duckdb'' sales_world)
     = Inr (FileConn ''data/sales.duckdb'',
            [(''fact_sales'', [(''sale_id'', ''BIGINT''), (''product_id'', ''BIGINT''),
                               (''amount'', ''DOUBLE'')]),
             (''dim_product'', [(''product_id'', ''BIGINT''), (''name'', ''VARCHAR'')])])
   \<and> map fst [(''fact_sales'', [(''sale_id'', ''BIGINT''), (''product_id'', ''BIGINT''),
                               (''amount'', ''DOUBLE'')]),
             (''dim_product'', [(''product_id'', ''BIGINT''), (''name'', ''VARCHAR'')])]
       = first_seen [''fact_sales'', ''dim_product'']
   \<and> first_seen [''fact_sales'', ''dim_product''] = [''fact_sales'', ''dim_product'']"
proof -
  have h: "fst (infer_schemas_and_generate_puppini_bridge_sql [''fact_sales'', ''dim_product'']
          ''data/sales.duckdb'' sales_world)
     = Inr (FileConn ''data/sales.duckdb'',
            [(''fact_sales'', [(''sale_id'', ''BIGINT''), (''product_id'', ''BIGINT''),
                               (''amount'', ''DOUBLE'')]),
             (''dim_product'', [(''product_id'', ''BIGINT''), (''name'', ''VARCHAR'')])])"
    by (simp add: infer_schemas_and_generate_puppini_bridge_sql_def sales_world_def
        path_exists_def logger_def connect_def execute_table_info_def columns_dict_def Let_def)
  from union_order_follows_first_occurrence [OF h, of empty_world] h
  show ?thesis by simp
qed

text \<open>
  Claim C7 as written speaks of every list of table names. For the list that names
  the table \<open>a\<close> twice, the schema map has one entry and the SQL one branch: there is
  no second branch for the second input name.
\<close>

theorem repeated_table_counterexample:
  "fst (infer_schemas_and_generate_puppini_bridge_sql [''a'', ''a''] ''data/sales.duckdb'' dup_world)
     = Inr (FileConn ''data/sales.duckdb'', [(''a'', [(''id'', ''INTEGER'')])])
   \<and> fst (generate_puppini_bridge_sql [(''a'', [(''id'', ''INTEGER'')])] empty_world)
     = Inr ''CREATE OR REPLACE TABLE puppini_bridge AS SELECT CAST(id AS VARCHAR) AS _KEY_a, 'a' AS Stage FROM a''"
  by (simp add: infer_schemas_and_generate_puppini_bridge_sql_def dup_world_def path_exists_def
      logger_def connect_def execute_table_info_def columns_dict_def
      generate_puppini_bridge_sql_def first_key_def dict_keys_def select_query_def squote_def Let_def)

section \<open>The schema loader\<close>

lemmas loader_defs = load_csv_to_duckdb_def path_exists_def parent_exists_def dirname_def
  logger_def connect_def execute_create_table_def Let_def squote_def

text \<open>
  Claim C2, at a concrete input. The CSV file \<open>data/t1.csv\<close> exists and there is no
  database yet. The first run with \<open>force=True\<close> returns a connection. The second run
  with the same arguments, in the world the first one left, raises: the table \<open>t1\<close> is
  there and the statement is \<open>CREATE TABLE\<close>, not \<open>CREATE OR REPLACE TABLE\<close>.
\<close>

theorem second_forced_load_raises:
  "fst (load_csv_to_duckdb [(''t1'', ''data/t1.csv'')] True ''data/sales.duckdb'' csv_world)
     = Inr (FileConn ''data/sales.duckdb'')
   \<and> fst (load_csv_to_duckdb [(''t1'', ''data/t1.csv'')] True ''data/sales.duckdb''
        (snd (load_csv_to_duckdb [(''t1'', ''data/t1.csv'')] True ''data/sales.duckdb'' csv_world)))
     = Inl (CatalogException ''t1'')"
  by (simp add: loader_defs csv_world_def)

text \<open>
  Claim C5. When a file exists at the database path and \<open>force\<close> is not set,
  \<open>load_csv_to_duckdb\<close> makes one connection attempt and hands no statement to it,
  leaves the file system and the in-memory databases that were there as they were,
  and, when the path names a database file, returns the connection to that file, behind
  which the database is the one that was there.
\<close>

theorem existing_database_not_recreated:
  assumes "path_exists w database_path" and "\<not> force"
  shows "events (snd (load_csv_to_duckdb csv_files force database_path w))
           = events w @ [Connect database_path]
         \<and> fs (snd (load_csv_to_duckdb csv_files force database_path w)) = fs w
         \<and> take (length (mem w)) (mem (snd (load_csv_to_duckdb csv_files force database_path w)))
             = mem w
         \<and> (\<forall>db. fs w database_path = Some (DbFile db) \<and> database_path \<noteq> '':memory:'' \<longrightarrow>
               fst (load_csv_to_duckdb csv_files force database_path w)
                 = Inr (FileConn database_path)
               \<and> db_of (snd (load_csv_to_duckdb csv_files force database_path w))
                    (FileConn database_path) = Some db)"
  using assms
  by (auto simp: load_csv_to_duckdb_def path_exists_def logger_def connect_def Let_def
      split: option.splits node.splits)

theorem existing_database_not_recreated_witness:
  "path_exists sales_world ''data/sales.duckdb'' \<and> \<not> False
   \<and> events (snd (load_csv_to_duckdb [(''fact_sales'', ''data/fact_sales.csv'')] False
                     ''data/sales.duckdb'' sales_world))
       = [Connect ''data/sales.duckdb'']
   \<and> fs (snd (load_csv_to_duckdb [(''fact_sales'', ''data/fact_sales.csv'')] False
                     ''data/sales.duckdb'' sales_world)) = fs sales_world
   \<and> fst (load_csv_to_duckdb [(''fact_sales'', ''data/fact_sales.csv'')] False
                     ''data/sales.duckdb'' sales_world) = Inr (FileConn ''data/sales.duckdb'')"
proof -
  have h: "path_exists sales_world ''data/sales.duckdb''"
    by (simp add: path_exists_def sales_world_def)
  have e: "events sales_world = []" "mem sales_world = []"
    "fs sales_world ''data/sales.duckdb'' = Some (DbFile
              [''fact_sales'' \<mapsto> [(''sale_id'', ''BIGINT''), (''product_id'', ''BIGINT''),
                                  (''amount'', ''DOUBLE'')],
               ''dim_product'' \<mapsto> [(''product_id'', ''BIGINT''), (''name'', ''VARCHAR'')]])"
    by (simp_all add: sales_world_def)
  from existing_database_not_recreated
         [of sales_world "''data/sales.duckdb''" False "[(''fact_sales'', ''data/fact_sales.csv'')]", OF h]
  show ?thesis using h e by simp
qed

text \<open>
  The loop does not read the log: on two worlds that are the same but for the log it
  gives the same result and leaves worlds that are the same but for the log. A
  statement never makes a path appear or disappear.
\<close>

lemma db_of_same:
  "same_but_log w w' \<Longrightarrow> db_of w con = db_of w' con"
  by (cases con) (simp_all add: same_but_log_def)

lemma logger_same [simp]:
  "same_but_log (logger l m w) w' = same_but_log w w'"
  "same_but_log w (logger l m w') = same_but_log w w'"
  by (simp_all add: same_but_log_def logger_def)

lemma path_exists_same:
  "same_but_log w w' \<Longrightarrow> path_exists w p = path_exists w' p"
  by (simp add: same_but_log_def path_exists_def)

lemma path_exists_logger [simp]:
  "path_exists (logger l m w) p = path_exists w p"
  by (simp add: path_exists_def logger_def)

lemma execute_create_table_same:
  assumes "same_but_log w w'"
  shows "fst (execute_create_table con t p w) = fst (execute_create_table con t p w')
         \<and> same_but_log (snd (execute_create_table con t p w))
                          (snd (execute_create_table con t p w'))"
proof -
  have d: "db_of w con = db_of w' con" using assms by (rule db_of_same)
  have f: "fs w = fs w'" "mem w = mem w'" "events w = events w'"
    using assms by (simp_all add: same_but_log_def)
  show ?thesis
    by (cases con)
       (auto simp: execute_create_table_def Let_def d f same_but_log_def
             split: option.splits node.splits)
qed

lemma execute_create_table_exists:
  "path_exists (snd (execute_create_table con t p w)) q = path_exists w q"
  by (cases con)
     (auto simp: execute_create_table_def Let_def path_exists_def
           split: option.splits node.splits)

lemma load_loop_filter:
  assumes "same_but_log w w'"
  shows "fst (load_loop con entries w)
           = fst (load_loop con (filter (\<lambda>(t, p). path_exists w p) entries) w')
         \<and> same_but_log (snd (load_loop con entries w))
              (snd (load_loop con (filter (\<lambda>(t, p). path_exists w p) entries) w'))"
  using assms
proof (induction entries arbitrary: w w')
  case Nil
  then show ?case by simp
next
  case (Cons e rest)
  obtain t p where e: "e = (t, p)" by (cases e)
  show ?case
  proof (cases "path_exists w p")
    case False
    let ?w1 = "logger ERROR
             (''CSV file '' @ [squote] @ p @ [squote] @ '' does not exist. Skipping table ''
                @ [squote] @ t @ [squote] @ ''.'') w"
    have "same_but_log ?w1 w'" using Cons.prems by simp
    from Cons.IH[OF this] False show ?thesis by (simp add: e)
  next
    case True
    then have True': "path_exists w' p" using Cons.prems by (simp add: path_exists_same)
    let ?m = "''Loading CSV file '' @ [squote] @ p @ [squote]
                       @ '' into DuckDB table '' @ [squote] @ t @ [squote] @ ''...''"
    let ?a = "execute_create_table con t p (logger INFO ?m w)"
    let ?b = "execute_create_table con t p (logger INFO ?m w')"
    have sb: "same_but_log (logger INFO ?m w) (logger INFO ?m w')" using Cons.prems by simp
    from execute_create_table_same[OF sb]
    have r: "fst ?a = fst ?b" and s: "same_but_log (snd ?a) (snd ?b)" by simp_all
    obtain ra wa where a: "?a = (ra, wa)" by (cases ?a)
    obtain rb wb where b: "?b = (rb, wb)" by (cases ?b)
    from r s a b have rr: "rb = ra" and ss: "same_but_log wa wb" by simp_all
    show ?thesis
    proof (cases ra)
      case (Inl err)
      with a b rr ss True True' show ?thesis by (simp add: e)
    next
      case (Inr u)
      let ?m2 = "''Table '' @ [squote] @ t @ [squote] @ '' created successfully.''"
      have pe: "\<And>q. path_exists (logger INFO ?m2 wa) q = path_exists w q"
        using execute_create_table_exists[of con t p "logger INFO ?m w"] a by simp
      have "same_but_log (logger INFO ?m2 wa) (logger INFO ?m2 wb)" using ss by simp
      from Cons.IH[OF this]
      have "fst (load_loop con rest (logger INFO ?m2 wa))
              = fst (load_loop con (filter (\<lambda>(t, p). path_exists w p) rest) (logger INFO ?m2 wb))
            \<and> same_but_log (snd (load_loop con rest (logger INFO ?m2 wa)))
                 (snd (load_loop con (filter (\<lambda>(t, p). path_exists w p) rest) (logger INFO ?m2 wb)))"
        by (simp only: pe)
      with a b rr Inr True True' show ?thesis by (simp add: e)
    qed
  qed
qed

lemma same_but_log_refl [simp]: "same_but_log w w"
  by (simp add: same_but_log_def)

lemma connect_same:
  assumes "same_but_log w w'"
  shows "fst (connect p w) = fst (connect p w')
         \<and> same_but_log (snd (connect p w)) (snd (connect p w'))"
proof -
  have f: "fs w = fs w'" "mem w = mem w'" "events w = events w'"
    using assms by (simp_all add: same_but_log_def)
  show ?thesis
    by (auto simp: connect_def Let_def f parent_exists_def same_but_log_def
             split: option.splits node.splits)
qed

text \<open>
  The whole call on a mapping, and on the entries of the mapping whose files exist once
  the connection is made.
\<close>

lemma load_csv_to_duckdb_filter:
  "fst (load_csv_to_duckdb csv_files force database_path w)
     = fst (load_csv_to_duckdb
              (filter (\<lambda>(t, p). path_exists (snd (connect database_path w)) p) csv_files)
              force database_path w)
   \<and> same_but_log (snd (load_csv_to_duckdb csv_files force database_path w))
        (snd (load_csv_to_duckdb
                (filter (\<lambda>(t, p). path_exists (snd (connect database_path w)) p) csv_files)
                force database_path w))"
proof -
  define w1 where "w1 = logger INFO
                 (''Connecting to DuckDB database at '' @ [squote] @ database_path
                    @ [squote] @ ''...'') w"
  define kept where
    "kept = filter (\<lambda>(t, p). path_exists (snd (connect database_path w)) p) csv_files"
  have unf: "\<And>cf f. load_csv_to_duckdb cf f database_path w
       = (if path_exists w1 database_path \<and> \<not> f then
            connect database_path
             (logger WARNING
                (''DuckDB database '' @ [squote] @ database_path @ [squote]
                   @ '' already exists. Connecting to existing. Use ''
                   @ [squote] @ ''force=True'' @ [squote] @ '' to overwrite.'') w1)
          else
            (case connect database_path w1 of
              (Inl e, w2) \<Rightarrow> (Inl e, w2)
            | (Inr con, w2) \<Rightarrow>
                (case load_loop con cf w2 of
                   (Inl e, w3) \<Rightarrow> (Inl e, w3)
                 | (Inr u, w3) \<Rightarrow> (Inr con, w3))))"
    by (simp only: load_csv_to_duckdb_def Let_def w1_def)
  show ?thesis
  proof (cases "path_exists w1 database_path \<and> \<not> force")
    case True
    then show ?thesis by (simp add: unf)
  next
    case False
    obtain r w2 where c: "connect database_path w1 = (r, w2)"
      by (cases "connect database_path w1")
    show ?thesis
    proof (cases r)
      case (Inl e)
      with False show ?thesis by (auto simp: unf c)
    next
      case (Inr con)
      have "same_but_log w1 w" by (simp add: w1_def)
      from connect_same[OF this, of database_path] c
      have "same_but_log w2 (snd (connect database_path w))" by simp
      then have pe: "\<And>q. path_exists w2 q = path_exists (snd (connect database_path w)) q"
        by (rule path_exists_same)
      have "fst (load_loop con csv_files w2)
              = fst (load_loop con (filter (\<lambda>(t, p). path_exists w2 p) csv_files) w2)
            \<and> same_but_log (snd (load_loop con csv_files w2))
                 (snd (load_loop con (filter (\<lambda>(t, p). path_exists w2 p) csv_files) w2))"
        by (rule load_loop_filter) simp
      then have l: "fst (load_loop con csv_files w2) = fst (load_loop con kept w2)"
        and sl: "same_but_log (snd (load_loop con csv_files w2)) (snd (load_loop con kept w2))"
        by (simp_all only: pe kept_def)
      obtain ra wa where a: "load_loop con csv_files w2 = (ra, wa)"
        by (cases "load_loop con csv_files w2")
      obtain rb wb where b: "load_loop con kept w2 = (rb, wb)"
        by (cases "load_loop con kept w2")
      from l sl a b have "rb = ra" "same_but_log wa wb" by simp_all
      with False show ?thesis
        by (cases ra) (auto simp: unf c Inr a b[unfolded kept_def])
    qed
  qed
qed

text \<open>
  Claim C4, as the code has it. An entry whose file is missing when the loop reaches
  it is passed over: the loop goes on with the remaining entries in a world that is
  the same but for the log. So the call on a mapping gives the result of the call on
  the entries whose files exist once the connection is made, and leaves the same
  world but for the log. And when nothing is at the database path, the directory of
  that path is there, and the single entry names a missing file other than the
  database path, the call returns a connection to a database with no table, after one
  connection attempt and no statement.
\<close>

theorem missing_source_skipped:
  "(\<not> path_exists w csv_path \<longrightarrow>
      (\<exists>w1. load_loop con ((table_name, csv_path) # rest) w = load_loop con rest w1
            \<and> same_but_log w w1))
   \<and> fst (load_csv_to_duckdb csv_files force database_path w)
       = fst (load_csv_to_duckdb
                (filter (\<lambda>(t, p). path_exists (snd (connect database_path w)) p) csv_files)
                force database_path w)
   \<and> same_but_log (snd (load_csv_to_duckdb csv_files force database_path w))
        (snd (load_csv_to_duckdb
                (filter (\<lambda>(t, p). path_exists (snd (connect database_path w)) p) csv_files)
                force database_path w))
   \<and> (\<not> path_exists w database_path \<and> parent_exists w database_path
        \<and> \<not> path_exists w csv_path \<and> csv_path \<noteq> database_path \<longrightarrow>
        (\<exists>con'. fst (load_csv_to_duckdb [(table_name, csv_path)] force database_path w) = Inr con'
           \<and> db_of (snd (load_csv_to_duckdb [(table_name, csv_path)] force database_path w)) con'
               = Some Map.empty
           \<and> events (snd (load_csv_to_duckdb [(table_name, csv_path)] force database_path w))
               = events w @ [Connect database_path]))"
proof -
  have a: "\<not> path_exists w csv_path \<longrightarrow>
      (\<exists>w1. load_loop con ((table_name, csv_path) # rest) w = load_loop con rest w1
            \<and> same_but_log w w1)"
  proof
    assume "\<not> path_exists w csv_path"
    then have "load_loop con ((table_name, csv_path) # rest) w
             = load_loop con rest (logger ERROR
             (''CSV file '' @ [squote] @ csv_path @ [squote] @ '' does not exist. Skipping table ''
                @ [squote] @ table_name @ [squote] @ ''.'') w)" by simp
    moreover have "same_but_log w (logger ERROR
             (''CSV file '' @ [squote] @ csv_path @ [squote] @ '' does not exist. Skipping table ''
                @ [squote] @ table_name @ [squote] @ ''.'') w)" by simp
    ultimately show "\<exists>w1. load_loop con ((table_name, csv_path) # rest) w = load_loop con rest w1
            \<and> same_but_log w w1" by blast
  qed
  note b = load_csv_to_duckdb_filter [of csv_files force database_path w]
  have c: "\<not> path_exists w database_path \<and> parent_exists w database_path
        \<and> \<not> path_exists w csv_path \<and> csv_path \<noteq> database_path \<longrightarrow>
        (\<exists>con'. fst (load_csv_to_duckdb [(table_name, csv_path)] force database_path w) = Inr con'
           \<and> db_of (snd (load_csv_to_duckdb [(table_name, csv_path)] force database_path w)) con'
               = Some Map.empty
           \<and> events (snd (load_csv_to_duckdb [(table_name, csv_path)] force database_path w))
               = events w @ [Connect database_path])"
    by (auto simp: load_csv_to_duckdb_def path_exists_def parent_exists_def logger_def
          connect_def Let_def)
  from a b c show ?thesis by blast
qed

theorem missing_source_skipped_witness:
  "\<not> path_exists csv_world ''data/sales.duckdb'' \<and> parent_exists csv_world ''data/sales.duckdb''
   \<and> \<not> path_exists csv_world ''data/missing.csv''
   \<and> fst (load_csv_to_duckdb [(''t0'', ''data/missing.csv'')] False ''data/sales.duckdb'' csv_world)
       = Inr (FileConn ''data/sales.duckdb'')
   \<and> db_of (snd (load_csv_to_duckdb [(''t0'', ''data/missing.csv'')] False ''data/sales.duckdb''
                    csv_world)) (FileConn ''data/sales.duckdb'') = Some Map.empty
   \<and> events (snd (load_csv_to_duckdb [(''t0'', ''data/missing.csv'')] False ''data/sales.duckdb''
                    csv_world)) = [Connect ''data/sales.duckdb'']
   \<and> fst (load_csv_to_duckdb [(''t0'', ''data/missing.csv''), (''t1'', ''data/t1.csv'')] False
            ''data/sales.duckdb'' csv_world)
       = fst (load_csv_to_duckdb [(''t1'', ''data/t1.csv'')] False ''data/sales.duckdb'' csv_world)
   \<and> fst (load_csv_to_duckdb [(''t1'', ''data/t1.csv'')] False ''data/sales.duckdb'' csv_world)
       = Inr (FileConn ''data/sales.duckdb'')"
proof -
  have h: "\<not> path_exists csv_world ''data/sales.duckdb''"
    "parent_exists csv_world ''data/sales.duckdb''"
    "\<not> path_exists csv_world ''data/missing.csv''"
    "''data/missing.csv'' \<noteq> ''data/sales.duckdb''" "events csv_world = []"
    by (simp_all add: path_exists_def parent_exists_def dirname_def csv_world_def)
  have k: "filter (\<lambda>(t, p). path_exists (snd (connect ''data/sales.duckdb'' csv_world)) p)
             [(''t0'', ''data/missing.csv''), (''t1'', ''data/t1.csv'')]
           = [(''t1'', ''data/t1.csv'')]"
    by (simp add: path_exists_def parent_exists_def dirname_def connect_def csv_world_def Let_def)
  have f: "fst (load_csv_to_duckdb [(''t0'', ''data/missing.csv'')] False ''data/sales.duckdb''
                  csv_world) = Inr (FileConn ''data/sales.duckdb'')"
       "fst (load_csv_to_duckdb [(''t1'', ''data/t1.csv'')] False ''data/sales.duckdb'' csv_world)
          = Inr (FileConn ''data/sales.duckdb'')"
    by (simp_all add: loader_defs csv_world_def)
  note inst = missing_source_skipped
         [where w = csv_world and csv_path = "''data/missing.csv''" and table_name = "''t0''"
            and database_path = "''data/sales.duckdb''" and force = False
            and con = "FileConn ''data/sales.duckdb''" and rest = "[(''t1'', ''data/t1.csv'')]"
            and csv_files = "[(''t0'', ''data/missing.csv''), (''t1'', ''data/t1.csv'')]"]
  from inst have "fst (load_csv_to_duckdb [(''t0'', ''data/missing.csv''), (''t1'', ''data/t1.csv'')]
            False ''data/sales.duckdb'' csv_world)
       = fst (load_csv_to_duckdb [(''t1'', ''data/t1.csv'')] False ''data/sales.duckdb'' csv_world)"
    by (simp only: k)
  with inst h f show ?thesis by auto
qed

text \<open>
  Claim C4 as written speaks of every mapping and of every run with no database
  yet. When the single entry names the database path itself, the connection has
  created that file before the loop looks for it, so the entry is not passed over and
  reading it as a CSV file raises. And when the directory of the database path is
  missing, the connection itself raises.
\<close>

theorem missing_source_counterexample:
  "\<not> path_exists empty_world ''sales.duckdb''
   \<and> fst (load_csv_to_duckdb [(''t1'', ''sales.duckdb'')] False ''sales.duckdb'' empty_world)
       = Inl (IOException ''sales.duckdb'')
   \<and> \<not> path_exists empty_world ''data/sales.duckdb''
   \<and> \<not> path_exists empty_world ''missing.csv''
   \<and> fst (load_csv_to_duckdb [(''t1'', ''missing.csv'')] False ''data/sales.duckdb'' empty_world)
       = Inl (IOException ''data/sales.duckdb'')"
  by (simp add: loader_defs empty_world_def)

section \<open>The diagram\<close>

text \<open>
  The dictionary \<open>tables\<close> after the first loop: one entry per table name in the order
  of first occurrence, holding the entries of that table's rows in their order.
\<close>

lemma first_seen_snoc:
  "first_seen (xs @ [x]) = (if x \<in> set xs then first_seen xs else first_seen xs @ [x])"
  by (induction xs) auto

lemma dict_set_new:
  "k \<notin> set ks \<Longrightarrow> dict_set k v (map (\<lambda>t. (t, f t)) ks) = map (\<lambda>t. (t, f t)) ks @ [(k, v)]"
  by (induction ks) auto

lemma dict_set_last:
  "k \<notin> set ks \<Longrightarrow>
     dict_set k v (map (\<lambda>t. (t, f t)) ks @ [(k, v0)]) = map (\<lambda>t. (t, f t)) ks @ [(k, v)]"
  by (induction ks) auto

lemma dict_set_old:
  "k \<in> set ks \<Longrightarrow> distinct ks \<Longrightarrow>
     dict_set k v (map (\<lambda>t. (t, f t)) ks) = map (\<lambda>t. (t, if t = k then v else f t)) ks"
proof (induction ks)
  case Nil
  then show ?case by simp
next
  case (Cons a ks)
  show ?case
  proof (cases "a = k")
    case True
    then have "k \<notin> set ks" using Cons.prems by simp
    then have "map (\<lambda>t. (t, if t = k then v else f t)) ks = map (\<lambda>t. (t, f t)) ks"
      by (intro map_cong) auto
    with True show ?thesis by simp
  next
    case False
    with Cons show ?thesis by simp
  qed
qed

lemma dict_get_tabulated:
  "k \<in> set ks \<Longrightarrow> dict_get (map (\<lambda>t. (t, f t)) ks) k = Some (f k)"
  by (induction ks) (auto simp: dict_get_def)

lemma columns_of_snoc:
  "columns_of lower (xs @ [(t, c, ty)]) u
     = (if u = t then columns_of lower xs u @ [column_entry lower ty c] else columns_of lower xs u)"
  by (simp add: columns_of_def column_entry_def)

lemma columns_of_absent:
  "t \<notin> set (map fst xs) \<Longrightarrow> columns_of lower xs t = []"
  by (induction xs) (auto simp: columns_of_def)

lemma collect_tables_spec:
  "collect_tables lower table_columns
     = map (\<lambda>t. (t, columns_of lower table_columns t)) (first_seen (map fst table_columns))"
proof (induction table_columns rule: rev_induct)
  case Nil
  show ?case by (simp add: collect_tables_def)
next
  case (snoc row xs)
  obtain t c ty where row: "row = (t, c, ty)" by (cases row)
  let ?ks = "first_seen (map fst xs)"
  let ?d = "map (\<lambda>u. (u, columns_of lower xs u)) ?ks"
  have step: "collect_tables lower (xs @ [(t, c, ty)]) = add_column lower (t, c, ty) ?d"
    using snoc.IH by (simp add: collect_tables_def)
  have main: "collect_tables lower (xs @ [(t, c, ty)])
     = map (\<lambda>u. (u, columns_of lower (xs @ [(t, c, ty)]) u)) (first_seen (map fst (xs @ [(t, c, ty)])))"
  proof (cases "t \<in> set (map fst xs)")
    case True
    then have in_ks: "t \<in> set ?ks" by simp
    have keys: "set (dict_keys ?d) = set (map fst xs)" by (simp add: dict_keys_def comp_def)
    have "add_column lower (t, c, ty) ?d
            = dict_set t (columns_of lower xs t @ [column_entry lower ty c]) ?d"
      using True in_ks by (simp add: keys dict_get_tabulated del: set_map)
    also have "\<dots> = map (\<lambda>u. (u, if u = t then columns_of lower xs t @ [column_entry lower ty c]
                                    else columns_of lower xs u)) ?ks"
      using in_ks by (simp add: dict_set_old)
    also have "\<dots> = map (\<lambda>u. (u, columns_of lower (xs @ [(t, c, ty)]) u)) ?ks"
      by (intro map_cong) (auto simp: columns_of_snoc)
    finally show ?thesis using True by (simp add: step first_seen_snoc del: add_column.simps)
  next
    case False
    then have not_ks: "t \<notin> set ?ks" by simp
    have keys: "set (dict_keys ?d) = set (map fst xs)" by (simp add: dict_keys_def comp_def)
    have d1: "dict_set t [] ?d = ?d @ [(t, [])]" using not_ks by (rule dict_set_new)
    have "fst ` set ?d = set ?ks" by (simp add: image_image)
    then have "map_of ?d t = None" using not_ks by (simp only: map_of_eq_None_iff not_False_eq_True)
    then have g: "dict_get (?d @ [(t, [])]) t = Some []"
      by (simp add: dict_get_def map_add_def)
    have "dict_set t [column_entry lower ty c] (?d @ [(t, [])]) = ?d @ [(t, [column_entry lower ty c])]"
      using not_ks by (rule dict_set_last)
    then have A: "add_column lower (t, c, ty) ?d = ?d @ [(t, [column_entry lower ty c])]"
      using False by (simp add: keys d1 g del: set_map)
    have B: "map (\<lambda>u. (u, columns_of lower (xs @ [(t, c, ty)]) u)) ?ks = ?d"
      using not_ks by (intro map_cong) (auto simp: columns_of_snoc)
    have C: "columns_of lower (xs @ [(t, c, ty)]) t = [column_entry lower ty c]"
      using False by (simp add: columns_of_snoc columns_of_absent)
    show ?thesis using False
      by (simp add: step A B C first_seen_snoc del: add_column.simps)
  qed
  show ?case unfolding row by (rule main)
qed

lemma table_block_spec:
  "table_block (t, columns_of lower table_columns t) = spec_block lower table_columns t"
  by (simp add: spec_block_def)

lemma relationship_line_spec:
  "relationship_line = (\<lambda>(from_table, from_column, to_table, to_column).
                ''  '' @ from_table @ '' }o--o{ '' @ to_table @ '' : '' @ [dquote]
                  @ from_column @ '' -> '' @ to_column @ [dquote])"
  by (simp add: fun_eq_iff)

lemma mermaid_diagram_spec:
  "mermaid_diagram lower table_columns foreign_keys = spec_diagram lower table_columns foreign_keys"
proof -
  have "map table_block (collect_tables lower table_columns)
          = map (spec_block lower table_columns) (first_seen (map fst table_columns))"
    by (simp add: collect_tables_spec comp_def table_block_spec del: table_block.simps)
  then show ?thesis
    by (simp add: mermaid_diagram_def spec_diagram_def relationship_line_spec)
qed

lemma join_prefix: "prefix x (join sep (x # xs))"
  by (cases xs) simp_all



text \<open>
  Claim C6. Whatever \<open>str.lower()\<close> is, the lines of the diagram are the header
  \<open>erDiagram\<close>, then for every table of the column listing, in the order of first
  occurrence, a line with the table name, one line per column with the lowercased
  type, a space and the column name, and a closing line; then one relationship line
  per foreign-key row, annotated with \<open>"<from_column> -> <to_column>"\<close>. The returned
  text is these lines joined with newlines, and it begins with the header.
\<close>

theorem diagram_layout:
  "mermaid_diagram lower table_columns foreign_keys
     = spec_diagram lower table_columns foreign_keys
   \<and> generate_mermaid_erd lower table_columns foreign_keys
       = join [newline] (spec_diagram lower table_columns foreign_keys)
   \<and> prefix ''erDiagram'' (generate_mermaid_erd lower table_columns foreign_keys)"
proof -
  have "prefix ''erDiagram'' (generate_mermaid_erd lower table_columns foreign_keys)"
    unfolding generate_mermaid_erd_def mermaid_diagram_def
    using join_prefix[of "''erDiagram''" "[newline]"] by simp
  then show ?thesis
    by (simp add: mermaid_diagram_spec generate_mermaid_erd_def)
qed

text \<open>
  The scenario of the specification, with its two blocks and one relationship line,
  as the text that is returned.
\<close>

theorem diagram_layout_witness:
  "generate_mermaid_erd ascii_lower
     [(''dim_product'', ''product_id'', ''BIGINT''), (''dim_product'', ''name'', ''VARCHAR''),
      (''fact_sales'', ''sale_id'', ''BIGINT''), (''fact_sales'', ''product_id'', ''BIGINT''),
      (''fact_sales'', ''amount'', ''DOUBLE'')]
     [(''fact_sales'', ''product_id'', ''dim_product'', ''product_id'')]
   = ''erDiagram'' @ [newline]
       @ ''  dim_product {'' @ [newline]
       @ ''    bigint product_id'' @ [newline]
       @ ''    varchar name'' @ [newline]
       @ ''  }'' @ [newline]
       @ ''  fact_sales {'' @ [newline]
       @ ''    bigint sale_id'' @ [newline]
       @ ''    bigint product_id'' @ [newline]
       @ ''    double amount'' @ [newline]
       @ ''  }'' @ [newline]
       @ ''  fact_sales }o--o{ dim_product : '' @ [dquote] @ ''product_id -> product_id''
       @ [dquote]"
proof -
  have e: "join [newline] (spec_diagram ascii_lower
     [(''dim_product'', ''product_id'', ''BIGINT''), (''dim_product'', ''name'', ''VARCHAR''),
      (''fact_sales'', ''sale_id'', ''BIGINT''), (''fact_sales'', ''product_id'', ''BIGINT''),
      (''fact_sales'', ''amount'', ''DOUBLE'')]
     [(''fact_sales'', ''product_id'', ''dim_product'', ''product_id'')])
   = ''erDiagram'' @ [newline]
       @ ''  dim_product {'' @ [newline]
       @ ''    bigint product_id'' @ [newline]
       @ ''    varchar name'' @ [newline]
       @ ''  }'' @ [newline]
       @ ''  fact_sales {'' @ [newline]
       @ ''    bigint sale_id'' @ [newline]
       @ ''    bigint product_id'' @ [newline]
       @ ''    double amount'' @ [newline]
       @ ''  }'' @ [newline]
       @ ''  fact_sales }o--o{ dim_product : '' @ [dquote] @ ''product_id -> product_id''
       @ [dquote]"
    by code_simp
  from diagram_layout
    [of ascii_lower
     "[(''dim_product'', ''product_id'', ''BIGINT''), (''dim_product'', ''name'', ''VARCHAR''),
      (''fact_sales'', ''sale_id'', ''BIGINT''), (''fact_sales'', ''product_id'', ''BIGINT''),
      (''fact_sales'', ''amount'', ''DOUBLE'')]"
     "[(''fact_sales'', ''product_id'', ''dim_product'', ''product_id'')]"]
  show ?thesis by (simp only: e)
qed



end
